theory Spec2Isabelle
  imports Main "HOL-Library.Sublist"
begin

section \<open>FIRDS reference data: file discovery, download and the ISIN to LEI table\<close>

text \<open>
  A shallow embedding of \<^verbatim>\<open>firds.py\<close>. Python strings are lists of characters, Python
  integers are \<^typ>\<open>int\<close>, \<^verbatim>\<open>None\<close> is \<^term>\<open>None\<close>. Every exception that the code can
  raise is a value of \<open>error\<close>, and a function that can raise returns \<open>error + 'a\<close> with
  \<^term>\<open>Inl\<close> for the exception. The network, the clock, the file system and the database are
  explicit arguments and results.
\<close>

subsection \<open>Exceptions\<close>

datatype error =
    IndexError
  | KeyError
  | ValueError
  | AttributeError
  | TypeError
  | OverflowError
  | ConnectionError
  | XMLSyntaxError
  | HTTPError int
  | BadZipFile
  | FileNotFoundError
  | OperationalError

text \<open>Indexing a Python list with a non-negative index: \<^verbatim>\<open>xs[i]\<close> raises past the end.\<close>

definition item :: "'a list \<Rightarrow> nat \<Rightarrow> error + 'a" where
  "item xs i = (if i < length xs then Inr (xs ! i) else Inl IndexError)"

subsection \<open>Element trees\<close>

text \<open>
  An lxml element: its qualified name (namespace URI and local name, the URI empty for a
  name without namespace), its attributes, its text (\<^verbatim>\<open>None\<close> for an element with no
  text) and its child elements in document order.
\<close>

type_synonym qname = "string \<times> string"

datatype xml = Element (tag: qname) (attrib: "(string \<times> string) list")
  (text_of: "string option") (children: "xml list")

text \<open>All elements below an element, in document order (the element itself excluded).\<close>

fun descendants :: "xml \<Rightarrow> xml list" where
  "descendants (Element t a x cs) = concat (map (\<lambda>c. c # descendants c) cs)"

text \<open>The XPath query \<^verbatim>\<open>.//str[@name="n"]\<close> evaluated at an element.\<close>

definition xpath_str_name :: "string \<Rightarrow> xml \<Rightarrow> xml list" where
  "xpath_str_name n e =
     filter (\<lambda>d. tag d = ('''', ''str'') \<and> map_of (attrib d) ''name'' = Some n) (descendants e)"

subsection \<open>The manifest parser\<close>

text \<open>\<^verbatim>\<open>FNAME_START.format(f)\<close> for a character \<open>f\<close> of the type filter.\<close>

definition FNAME_START :: "char \<Rightarrow> string" where
  "FNAME_START f = ''FULINS_'' @ [f]"

text \<open>
  The test \<^verbatim>\<open>(not ftype) or any(fname.startswith(FNAME_START.format(f)) for f in ftype)\<close>.
  With a non-empty filter the file name is asked for its prefix, which raises when the
  \<^verbatim>\<open>file_name\<close> element has no text.
\<close>

definition wanted :: "string \<Rightarrow> string option \<Rightarrow> error + bool" where
  "wanted ftype fname =
     (if ftype = [] then Inr True
      else case fname of
             None \<Rightarrow> Inl AttributeError
           | Some s \<Rightarrow> Inr (list_ex (\<lambda>f. prefix (FNAME_START f) s) ftype))"

text \<open>\<^verbatim>\<open>entry.xpath('.//str[@name="n"]')[0].text\<close>.\<close>

definition field_text :: "string \<Rightarrow> xml \<Rightarrow> error + string option" where
  "field_text n entry =
     (case item (xpath_str_name n entry) 0 of
        Inl e \<Rightarrow> Inl e
      | Inr x \<Rightarrow> Inr (text_of x))"

text \<open>The loop over the entries of a page, \<open>urls\<close> being the list built so far.\<close>

fun parse_entries :: "xml list \<Rightarrow> string \<Rightarrow> string option list \<Rightarrow> error + string option list" where
  "parse_entries [] ftype urls = Inr urls"
| "parse_entries (entry # es) ftype urls =
     (case field_text ''file_name'' entry of
        Inl e \<Rightarrow> Inl e
      | Inr fname \<Rightarrow>
          (case wanted ftype fname of
             Inl e \<Rightarrow> Inl e
           | Inr False \<Rightarrow> parse_entries es ftype urls
           | Inr True \<Rightarrow>
               (case field_text ''download_link'' entry of
                  Inl e \<Rightarrow> Inl e
                | Inr url \<Rightarrow> parse_entries es ftype (urls @ [url]))))"

text \<open>\<^verbatim>\<open>_parse_file_urls(root, ftype)\<close>: the entries are the children of \<^verbatim>\<open>root[1]\<close>.\<close>

definition parse_file_urls :: "xml \<Rightarrow> string \<Rightarrow> error + string option list" where
  "parse_file_urls root ftype =
     (case item (children root) 1 of
        Inl e \<Rightarrow> Inl e
      | Inr result \<Rightarrow> parse_entries (children result) ftype [])"

subsection \<open>Dates, requests and the search endpoint\<close>

text \<open>
  A \<^verbatim>\<open>datetime\<close>: the day as a proleptic Gregorian ordinal (day 1 is 0001-01-01, the
  smallest date Python represents) and the time within the day in microseconds.
\<close>

record datetime =
  day :: int
  micros :: nat

text \<open>
  \<^verbatim>\<open>d - timedelta(weeks=1)\<close>: seven days earlier at the same time of day; Python raises
  \<^verbatim>\<open>OverflowError\<close> when the result would lie before the smallest date.
\<close>

definition week_before :: "datetime \<Rightarrow> error + datetime" where
  "week_before d = (if day d - 7 < 1 then Inl OverflowError else Inr (d\<lparr>day := day d - 7\<rparr>))"

text \<open>
  \<^verbatim>\<open>Q_URL.format(...)\<close> reads the year, month and day of both dates, \<open>start\<close> and \<open>rows\<close>; a
  request is these values, the two dates at day granularity.
\<close>

record request =
  q_from :: int
  q_to :: int
  q_start :: int
  q_rows :: int

text \<open>
  The search endpoint as \<^verbatim>\<open>_request_file_urls\<close> sees it: \<^verbatim>\<open>requests.get\<close> followed by
  \<^verbatim>\<open>etree.fromstring\<close> yields an element tree, or raises (no connection, or a body that
  is not XML).
\<close>

type_synonym endpoint = "request \<Rightarrow> error + xml"

text \<open>\<^verbatim>\<open>_request_file_urls\<close>; \<open>sent\<close> is the list of the requests issued so far.\<close>

definition request_file_urls ::
  "endpoint \<Rightarrow> datetime \<Rightarrow> datetime \<Rightarrow> int \<Rightarrow> int \<Rightarrow> request list \<Rightarrow> (error + xml) \<times> request list" where
  "request_file_urls net from_date to_date start rows sent =
     (let url = \<lparr>q_from = day from_date, q_to = day to_date, q_start = start, q_rows = rows\<rparr>
      in (net url, sent @ [url]))"

subsection \<open>Python's \<^verbatim>\<open>int\<close> on a string\<close>

text \<open>
  \<^verbatim>\<open>int(s)\<close> in base ten, on strings of code points below 256: surrounding white space is
  dropped, one sign is allowed, and the digits may be separated by single underscores.
  (The interpreter's limit on the number of digits is not modelled.)
\<close>

definition py_isspace :: "char \<Rightarrow> bool" where
  "py_isspace c = ((of_char c :: nat) \<in> {9, 10, 11, 12, 13, 32, 133, 160})"

definition strip :: "string \<Rightarrow> string" where
  "strip s = rev (dropWhile py_isspace (rev (dropWhile py_isspace s)))"

definition is_digit :: "char \<Rightarrow> bool" where
  "is_digit c = (48 \<le> (of_char c :: nat) \<and> (of_char c :: nat) \<le> 57)"

definition digit_val :: "char \<Rightarrow> int" where
  "digit_val c = int (of_char c) - 48"

text \<open>\<open>prev\<close> says that the character before was a digit; \<open>acc\<close> is the value read so far.\<close>

fun parse_digits :: "string \<Rightarrow> bool \<Rightarrow> int \<Rightarrow> int option" where
  "parse_digits [] prev acc = (if prev then Some acc else None)"
| "parse_digits (c # cs) prev acc =
     (if is_digit c then parse_digits cs True (10 * acc + digit_val c)
      else if c = CHR ''_'' \<and> prev then parse_digits cs False acc
      else None)"

definition py_int :: "string \<Rightarrow> error + int" where
  "py_int s =
     (let t = strip s;
          neg = (t \<noteq> [] \<and> hd t = CHR ''-'');
          ds = (if t \<noteq> [] \<and> (hd t = CHR ''-'' \<or> hd t = CHR ''+'') then tl t else t)
      in case parse_digits ds False 0 of
           None \<Rightarrow> Inl ValueError
         | Some v \<Rightarrow> Inr (if neg then - v else v))"

subsection \<open>The date range paginator\<close>

text \<open>The page size, \<^verbatim>\<open>rows = 100\<close>.\<close>

definition rows :: int where
  "rows = 100"

text \<open>\<^verbatim>\<open>int(root[1].attrib['numFound'])\<close>.\<close>

definition num_found :: "xml \<Rightarrow> error + int" where
  "num_found root =
     (case item (children root) 1 of
        Inl e \<Rightarrow> Inl e
      | Inr result \<Rightarrow>
          (case map_of (attrib result) ''numFound'' of
             None \<Rightarrow> Inl KeyError
           | Some s \<Rightarrow> py_int s))"

text \<open>
  The defaults of the time window (the \<^verbatim>\<open>if from_date is None ... elif to_date is None\<close>
  block); \<open>today\<close> is what \<^verbatim>\<open>datetime.today()\<close> returns.
\<close>

definition time_window ::
  "datetime \<Rightarrow> datetime option \<Rightarrow> datetime option \<Rightarrow> error + datetime \<times> datetime" where
  "time_window today from_date to_date =
     (case from_date of
        None \<Rightarrow>
          (case week_before today of
             Inl e \<Rightarrow> Inl e
           | Inr f \<Rightarrow> Inr (f, today))
      | Some f \<Rightarrow>
          (case to_date of
             None \<Rightarrow> Inr (f, f)
           | Some t \<Rightarrow> Inr (f, t)))"

text \<open>The \<^verbatim>\<open>while num_results > (start + rows)\<close> loop.\<close>

function page_loop ::
  "endpoint \<Rightarrow> datetime \<Rightarrow> datetime \<Rightarrow> string \<Rightarrow> int \<Rightarrow> int \<Rightarrow> string option list \<Rightarrow> request list
     \<Rightarrow> (error + string option list) \<times> request list" where
  "page_loop net from_date to_date ftype num_results start urls sent =
     (if num_results > start + rows then
        (case request_file_urls net from_date to_date (start + rows) rows sent of
           (Inl e, sent') \<Rightarrow> (Inl e, sent')
         | (Inr root, sent') \<Rightarrow>
             (case parse_file_urls root ftype of
                Inl e \<Rightarrow> (Inl e, sent')
              | Inr page \<Rightarrow>
                  page_loop net from_date to_date ftype num_results (start + rows) (urls @ page) sent'))
      else (Inr urls, sent))"
  by pat_completeness auto
termination
  by (relation "measure (\<lambda>(net, from_date, to_date, ftype, num_results, start, urls, sent).
        nat (num_results - start))") (auto simp: rows_def)

declare page_loop.simps [simp del]

text \<open>\<^verbatim>\<open>get_file_urls\<close>: the result, and the requests issued, in order.\<close>

definition get_file_urls ::
  "endpoint \<Rightarrow> datetime \<Rightarrow> datetime option \<Rightarrow> datetime option \<Rightarrow> string
     \<Rightarrow> (error + string option list) \<times> request list" where
  "get_file_urls net today from_date to_date ftype =
     (case time_window today from_date to_date of
        Inl e \<Rightarrow> (Inl e, [])
      | Inr (f, t) \<Rightarrow>
          (case request_file_urls net f t 0 rows [] of
             (Inl e, sent) \<Rightarrow> (Inl e, sent)
           | (Inr root, sent) \<Rightarrow>
               (case num_found root of
                  Inl e \<Rightarrow> (Inl e, sent)
                | Inr num_results \<Rightarrow>
                    (case parse_file_urls root ftype of
                       Inl e \<Rightarrow> (Inl e, sent)
                     | Inr urls \<Rightarrow> page_loop net f t ftype num_results 0 urls sent))))"

subsection \<open>The archive fetcher\<close>









subsection \<open>The lookup store\<close>

text \<open>
  A table created by \<^verbatim>\<open>CREATE_TABLE\<close> holds rows \<open>(isin, lei)\<close> in insertion order. The
  column \<open>lei\<close> is \<^verbatim>\<open>NOT NULL\<close>. The column \<open>isin\<close> is a \<^verbatim>\<open>TEXT PRIMARY KEY\<close>, in which
  SQLite accepts \<^verbatim>\<open>NULL\<close> and counts every \<^verbatim>\<open>NULL\<close> as different from every other value.
  The database maps the names of the tables that exist to their committed rows.
\<close>

type_synonym row = "string option \<times> string"

type_synonym database = "string \<Rightarrow> row list option"

definition rows_of :: "database \<Rightarrow> string \<Rightarrow> row list" where
  "rows_of db table = (case db table of None \<Rightarrow> [] | Some rs \<Rightarrow> rs)"

text \<open>\<^verbatim>\<open>CREATE TABLE IF NOT EXISTS\<close>; sqlite3 runs it outside any transaction.\<close>

definition create_table :: "string \<Rightarrow> database \<Rightarrow> database" where
  "create_table table db = (case db table of None \<Rightarrow> db(table \<mapsto> []) | Some rs \<Rightarrow> db)"

text \<open>
  One \<^verbatim>\<open>INSERT OR IGNORE INTO table (isin, lei) VALUES (?, ?)\<close>: a row that violates
  \<^verbatim>\<open>NOT NULL\<close> or the uniqueness of the key is skipped.
\<close>

definition insert_or_ignore :: "row list \<Rightarrow> string option \<times> string option \<Rightarrow> row list" where
  "insert_or_ignore rs arg =
     (case snd arg of
        None \<Rightarrow> rs
      | Some lei \<Rightarrow>
          (case fst arg of
             None \<Rightarrow> rs @ [(None, lei)]
           | Some isin \<Rightarrow> if Some isin \<in> set (map fst rs) then rs else rs @ [(Some isin, lei)]))"

text \<open>
  \<^verbatim>\<open>cursor.executemany\<close> inside the transaction that sqlite3 opens before the first
  \<^verbatim>\<open>INSERT\<close>. The storage layer may fail at one statement of the batch (\<open>fault\<close> is its
  index; \<^term>\<open>None\<close> when it does not fail): the statements before it have then been
  executed in the open transaction. The result is the outcome and the rows as the
  transaction sees them.
\<close>

definition executemany ::
  "nat option \<Rightarrow> row list \<Rightarrow> (string option \<times> string option) list \<Rightarrow> (error + unit) \<times> row list" where
  "executemany fault rs args =
     (case fault of
        None \<Rightarrow> (Inr (), foldl insert_or_ignore rs args)
      | Some k \<Rightarrow>
          if k < length args then (Inl OperationalError, foldl insert_or_ignore rs (take k args))
          else (Inr (), foldl insert_or_ignore rs args))"

subsection \<open>The reference parser and \<^verbatim>\<open>append_to_table\<close>\<close>

text \<open>The namespace bound to the prefix \<^verbatim>\<open>Document\<close> in \<^verbatim>\<open>ns\<close>.\<close>

definition Document :: string where
  "Document = ''urn:iso:std:iso:20022:tech:xsd:auth.017.001.02''"

text \<open>The child step \<^verbatim>\<open>Document:name\<close> of an XPath, at an element.\<close>

definition child_step :: "string \<Rightarrow> xml \<Rightarrow> xml list" where
  "child_step name e = filter (\<lambda>c. tag c = (Document, name)) (children e)"

text \<open>\<^verbatim>\<open>root.xpath('//Document:RefData')\<close>: every such element of the document.\<close>

definition xpath_RefData :: "xml \<Rightarrow> xml list" where
  "xpath_RefData root = filter (\<lambda>e. tag e = (Document, ''RefData'')) (root # descendants root)"

text \<open>\<^verbatim>\<open>ref_data.xpath('Document:FinInstrmGnlAttrbts/Document:Id')\<close>.\<close>

definition xpath_Id :: "xml \<Rightarrow> xml list" where
  "xpath_Id ref_data = concat (map (child_step ''Id'') (child_step ''FinInstrmGnlAttrbts'' ref_data))"

text \<open>\<^verbatim>\<open>ref_data.xpath('Document:Issr')\<close>.\<close>

definition xpath_Issr :: "xml \<Rightarrow> xml list" where
  "xpath_Issr ref_data = child_step ''Issr'' ref_data"

text \<open>The loop over the records, \<open>args\<close> being the list built so far.\<close>

fun collect_args ::
  "xml list \<Rightarrow> (string option \<times> string option) list \<Rightarrow> error + (string option \<times> string option) list" where
  "collect_args [] args = Inr args"
| "collect_args (ref_data # rest) args =
     (case item (xpath_Id ref_data) 0 of
        Inl e \<Rightarrow> Inl e
      | Inr i \<Rightarrow>
          (case item (xpath_Issr ref_data) 0 of
             Inl e \<Rightarrow> Inl e
           | Inr l \<Rightarrow> collect_args rest (args @ [(text_of i, text_of l)])))"

text \<open>
  \<^verbatim>\<open>append_to_table\<close>. \<open>files\<close> is what \<^verbatim>\<open>etree.parse\<close> makes of a path: the root of the
  document, or the exception for a missing or malformed file. The result is the outcome
  and the committed database: without \<^verbatim>\<open>conn.commit()\<close> the rows of the open transaction
  are never seen by anyone else.
\<close>

definition append_to_table ::
  "(string \<Rightarrow> error + xml) \<Rightarrow> nat option \<Rightarrow> string \<Rightarrow> string \<Rightarrow> database \<Rightarrow> (error + unit) \<times> database" where
  "append_to_table files fault table xml_file db =
     (let db1 = create_table table db in
      case files xml_file of
        Inl e \<Rightarrow> (Inl e, db1)
      | Inr root \<Rightarrow>
          (case collect_args (xpath_RefData root) [] of
             Inl e \<Rightarrow> (Inl e, db1)
           | Inr args \<Rightarrow>
               (case executemany fault (rows_of db1 table) args of
                  (Inl e, pending) \<Rightarrow> (Inl e, db1)
                | (Inr _, pending) \<Rightarrow> (Inr (), db1(table \<mapsto> pending)))))"

subsection \<open>\<^verbatim>\<open>lookup_leis\<close>\<close>

text \<open>
  \<^verbatim>\<open>SELECT lei FROM table WHERE isin=?\<close>: the result rows. A \<^verbatim>\<open>NULL\<close> key equals no
  parameter.
\<close>

definition select_lei :: "database \<Rightarrow> string \<Rightarrow> string \<Rightarrow> error + string list" where
  "select_lei db table i =
     (case db table of
        None \<Rightarrow> Inl OperationalError
      | Some rs \<Rightarrow> Inr (map snd (filter (\<lambda>r. fst r = Some i) rs)))"

text \<open>\<^verbatim>\<open>cursor.fetchone()\<close>: the first result row, or \<^verbatim>\<open>None\<close>.\<close>

definition fetchone :: "'a list \<Rightarrow> 'a option" where
  "fetchone found = (case found of [] \<Rightarrow> None | x # _ \<Rightarrow> Some x)"

text \<open>
  The loop of \<^verbatim>\<open>lookup_leis\<close>; \<^verbatim>\<open>cursor.fetchone()[0]\<close> subscripts what \<^verbatim>\<open>fetchone\<close>
  returned, which raises \<^verbatim>\<open>TypeError\<close> on \<^verbatim>\<open>None\<close>.
\<close>

fun lookup_loop :: "database \<Rightarrow> string list \<Rightarrow> string \<Rightarrow> string list \<Rightarrow> error + string list" where
  "lookup_loop db [] table results = Inr results"
| "lookup_loop db (i # isins) table results =
     (case select_lei db table i of
        Inl e \<Rightarrow> Inl e
      | Inr found \<Rightarrow>
          (case fetchone found of
             None \<Rightarrow> Inl TypeError
           | Some lei \<Rightarrow> lookup_loop db isins table (results @ [lei])))"

definition lookup_leis :: "database \<Rightarrow> string list \<Rightarrow> string \<Rightarrow> error + string list" where
  "lookup_leis db isins table = lookup_loop db isins table []"

subsection \<open>A simulated search endpoint\<close>

text \<open>
  A result document as the endpoint writes it, for a file name and a download link, and a
  response page: the response header first, then the result element, which carries the
  reported total \<^verbatim>\<open>numFound\<close> and the documents of the page.
\<close>

definition solr_doc :: "string \<times> string \<Rightarrow> xml" where
  "solr_doc d =
     Element ('''', ''doc'') [] None
       [Element ('''', ''str'') [(''name'', ''file_name'')] (Some (fst d)) [],
        Element ('''', ''str'') [(''name'', ''download_link'')] (Some (snd d)) []]"

definition solr_page :: "string \<Rightarrow> (string \<times> string) list \<Rightarrow> xml" where
  "solr_page numFound docs =
     Element ('''', ''response'') [] None
       [Element ('''', ''lst'') [(''name'', ''responseHeader'')] None [],
        Element ('''', ''result'') [(''name'', ''response''), (''numFound'', numFound)] None
          (map solr_doc docs)]"

text \<open>
  An endpoint that holds the documents \<open>docs\<close>, reports the total \<open>numFound\<close> and answers a
  request with the \<open>rows\<close> documents from position \<open>start\<close> on.
\<close>

definition solr_endpoint :: "string \<Rightarrow> (string \<times> string) list \<Rightarrow> endpoint" where
  "solr_endpoint numFound docs url =
     Inr (solr_page numFound (take (nat (q_rows url)) (drop (nat (q_start url)) docs)))"

subsection \<open>The key constraint, and sample reference documents\<close>


text \<open>
  A reference-data record as it stands in a FIRDS file. The first argument is the ISIN in
  the \<^verbatim>\<open>Id\<close> element under the general attributes, the second is the LEI in the \<^verbatim>\<open>Issr\<close>
  element; \<^term>\<open>None\<close> leaves the element out of the record.
\<close>

definition ref_data_elem :: "string option \<Rightarrow> string option \<Rightarrow> xml" where
  "ref_data_elem isin lei =
     Element (Document, ''RefData'') [] None
       (Element (Document, ''FinInstrmGnlAttrbts'') [] None
          (case isin of None \<Rightarrow> [] | Some i \<Rightarrow> [Element (Document, ''Id'') [] (Some i) []])
        # (case lei of None \<Rightarrow> [] | Some l \<Rightarrow> [Element (Document, ''Issr'') [] (Some l) []]))"

text \<open>A document with the given records.\<close>

definition firds_doc :: "xml list \<Rightarrow> xml" where
  "firds_doc records =
     Element (Document, ''Document'') [] None
       [Element (Document, ''FinInstrmRptgRefDataRpt'') [] None records]"

section \<open>Properties\<close>

subsection \<open>The manifest parser keeps the wanted entries\<close>

lemma parse_entries_filter:
  assumes "map (field_text ''file_name'') es = map (\<lambda>d. Inr (Some (fst d))) docs"
    and "map (field_text ''download_link'') es = map (\<lambda>d. Inr (snd d)) docs"
  shows "parse_entries es ftype urls =
    Inr (urls @ map snd (filter (\<lambda>d. ftype = [] \<or> (\<exists>c \<in> set ftype. prefix (''FULINS_'' @ [c]) (fst d))) docs))"
  using assms
proof (induction es arbitrary: docs urls)
  case Nil
  then show ?case by simp
next
  case (Cons entry es)
  then obtain d ds where docs: "docs = d # ds" by (cases docs) auto
  from Cons.prems docs have fn: "field_text ''file_name'' entry = Inr (Some (fst d))"
    and dl: "field_text ''download_link'' entry = Inr (snd d)"
    and rest: "map (field_text ''file_name'') es = map (\<lambda>d. Inr (Some (fst d))) ds"
      "map (field_text ''download_link'') es = map (\<lambda>d. Inr (snd d)) ds"
    by auto
  have w: "wanted ftype (Some (fst d)) =
      Inr (ftype = [] \<or> (\<exists>c \<in> set ftype. prefix (''FULINS_'' @ [c]) (fst d)))"
    by (simp add: wanted_def FNAME_START_def list_ex_iff)
  show ?case
    using Cons.IH [OF rest] by (simp add: fn dl w docs)
qed

lemma field_text_solr_doc:
  "field_text ''file_name'' (solr_doc d) = Inr (Some (fst d))"
  "field_text ''download_link'' (solr_doc d) = Inr (Some (snd d))"
  by (simp_all add: field_text_def xpath_str_name_def solr_doc_def item_def)

lemma item_solr_page:
  "item (children (solr_page nf docs)) 1 =
     Inr (Element ('''', ''result'') [(''name'', ''response''), (''numFound'', nf)] None (map solr_doc docs))"
  by (simp add: solr_page_def item_def)

lemma parse_solr_page:
  "parse_file_urls (solr_page nf docs) ftype =
    Inr (map (\<lambda>d. Some (snd d)) (filter (\<lambda>d. ftype = [] \<or> (\<exists>c \<in> set ftype. prefix (''FULINS_'' @ [c]) (fst d))) docs))"
proof -
  have "parse_entries (map solr_doc docs) ftype [] =
    Inr ([] @ map snd (filter (\<lambda>d. ftype = [] \<or> (\<exists>c \<in> set ftype. prefix (''FULINS_'' @ [c]) (fst d)))
       (map (\<lambda>d. (fst d, Some (snd d))) docs)))"
    by (rule parse_entries_filter) (simp_all add: field_text_solr_doc o_def)
  then show ?thesis
    unfolding parse_file_urls_def item_solr_page by (simp add: filter_map o_def)
qed

text \<open>
  C6. Take a search-result page whose second child holds the entries, the entries having
  the file names and download links listed in \<open>docs\<close>. For every type filter the parser
  succeeds and returns, in page order, the links of exactly those entries for which the
  filter is empty or the file name begins with \<^verbatim>\<open>FULINS_\<close> followed by a letter of the
  filter; the other entries are dropped without error.
\<close>

theorem parse_file_urls_keeps_wanted:
  assumes "item (children root) 1 = Inr result"
    and "map (field_text ''file_name'') (children result) = map (\<lambda>d. Inr (Some (fst d))) docs"
    and "map (field_text ''download_link'') (children result) = map (\<lambda>d. Inr (snd d)) docs"
  shows "parse_file_urls root ftype =
    Inr (map snd (filter (\<lambda>d. ftype = [] \<or> (\<exists>c \<in> set ftype. prefix (''FULINS_'' @ [c]) (fst d))) docs))"
  using parse_entries_filter [OF assms(2,3), of ftype "[]"] assms(1)
  by (simp add: parse_file_urls_def)

text \<open>
  The page with the file names \<^verbatim>\<open>FULINS_B_1\<close> and \<^verbatim>\<open>FULINS_E_2\<close>: the filter \<^verbatim>\<open>B\<close> keeps the
  bond entry only, the empty filter keeps both.
\<close>

theorem parse_file_urls_keeps_wanted_witness:
  "parse_file_urls (solr_page ''2'' [(''FULINS_B_1'', ''b''), (''FULINS_E_2'', ''e'')]) ''B'' = Inr [Some ''b'']
   \<and> parse_file_urls (solr_page ''2'' [(''FULINS_B_1'', ''b''), (''FULINS_E_2'', ''e'')]) '''' = Inr [Some ''b'', Some ''e'']"
proof -
  let ?docs = "[(''FULINS_B_1'', ''b''), (''FULINS_E_2'', ''e'')]"
  let ?docs' = "[(''FULINS_B_1'', Some ''b''), (''FULINS_E_2'', Some ''e'')]"
  let ?result = "Element ('''', ''result'') [(''name'', ''response''), (''numFound'', ''2'')] None (map solr_doc ?docs)"
  have 1: "item (children (solr_page ''2'' ?docs)) 1 = Inr ?result"
    by (rule item_solr_page)
  have 2: "map (field_text ''file_name'') (children ?result) = map (\<lambda>d. Inr (Some (fst d))) ?docs'"
    by (simp add: field_text_solr_doc)
  have 3: "map (field_text ''download_link'') (children ?result) = map (\<lambda>d. Inr (snd d)) ?docs'"
    by (simp add: field_text_solr_doc)
  show ?thesis
    using parse_file_urls_keeps_wanted [OF 1 2 3, of "''B''"]
      parse_file_urls_keeps_wanted [OF 1 2 3, of "''''"]
    by simp
qed

subsection \<open>The archive fetcher\<close>








subsection \<open>Looking up an identifier that is not stored\<close>

text \<open>
  C1. The table \<^verbatim>\<open>equities\<close> holds \<^verbatim>\<open>X\<close> and \<^verbatim>\<open>Z\<close> but not \<^verbatim>\<open>Y\<close>. Looking up \<^verbatim>\<open>X\<close>, \<^verbatim>\<open>Y\<close>, \<^verbatim>\<open>Z\<close>
  does not return a list with a marker at the second position: the whole call raises
  \<^verbatim>\<open>TypeError\<close>.
\<close>

theorem lookup_leis_absent_raises:
  "lookup_leis (Map.empty(''equities'' \<mapsto> [(Some ''X'', ''LEI-X''), (Some ''Z'', ''LEI-Z'')]))
     [''X'', ''Y'', ''Z''] ''equities'' = Inl TypeError"
  by (simp add: lookup_leis_def select_lei_def fetchone_def)

subsection \<open>The time window of the requests\<close>

lemma page_loop_unfold:
  "page_loop net f t ftype N s urls sent =
     (let url = \<lparr>q_from = day f, q_to = day t, q_start = s + rows, q_rows = rows\<rparr> in
      if N > s + rows then
        (case net url of
           Inl e \<Rightarrow> (Inl e, sent @ [url])
         | Inr root \<Rightarrow>
             (case parse_file_urls root ftype of
                Inl e \<Rightarrow> (Inl e, sent @ [url])
              | Inr page \<Rightarrow> page_loop net f t ftype N (s + rows) (urls @ page) (sent @ [url])))
      else (Inr urls, sent))"
  by (subst page_loop.simps) (simp add: request_file_urls_def Let_def)

lemma page_loop_sent:
  assumes "\<forall>r \<in> set sent. q_from r = day f \<and> q_to r = day t"
  shows "\<forall>r \<in> set (snd (page_loop net f t ftype N s urls sent)). q_from r = day f \<and> q_to r = day t"
  using assms
proof (induction "nat (N - s)" arbitrary: s urls sent rule: less_induct)
  case less
  let ?url = "\<lparr>q_from = day f, q_to = day t, q_start = s + rows, q_rows = rows\<rparr>"
  have sent': "\<forall>r \<in> set (sent @ [?url]). q_from r = day f \<and> q_to r = day t"
    using less.prems by simp
  show ?case
  proof (cases "N > s + rows")
    case False
    then show ?thesis using less.prems by (simp add: page_loop_unfold [of _ _ _ _ _ s])
  next
    case True
    then have dec: "nat (N - (s + rows)) < nat (N - s)" by (simp add: rows_def)
    show ?thesis
      using True sent' less.hyps [OF dec sent']
      by (simp add: page_loop_unfold [of _ _ _ _ _ s] Let_def split: sum.splits)
  qed
qed

lemma page_loop_sent_prefix:
  "prefix sent (snd (page_loop net f t ftype N s urls sent))"
proof (induction "nat (N - s)" arbitrary: s urls sent rule: less_induct)
  case less
  let ?url = "\<lparr>q_from = day f, q_to = day t, q_start = s + rows, q_rows = rows\<rparr>"
  show ?case
  proof (cases "N > s + rows")
    case False
    then show ?thesis by (simp add: page_loop_unfold [of _ _ _ _ _ s])
  next
    case True
    then have dec: "nat (N - (s + rows)) < nat (N - s)" by (simp add: rows_def)
    have "prefix sent (sent @ [?url])" by simp
    then show ?thesis
      using True less.hyps [OF dec, of "sent @ [?url]"]
      by (auto simp: page_loop_unfold [of _ _ _ _ _ s] Let_def split: sum.splits
          dest: append_prefixD)
  qed
qed

lemma get_file_urls_sent:
  assumes "time_window today from_date to_date = Inr (f, t)"
  shows "snd (get_file_urls net today from_date to_date ftype) \<noteq> []
    \<and> (\<forall>r \<in> set (snd (get_file_urls net today from_date to_date ftype)).
          q_from r = day f \<and> q_to r = day t)"
proof -
  let ?url = "\<lparr>q_from = day f, q_to = day t, q_start = 0, q_rows = rows\<rparr>"
  have 1: "\<forall>r \<in> set [?url]. q_from r = day f \<and> q_to r = day t" by simp
  have 2: "snd (page_loop net f t ftype N 0 urls [?url]) \<noteq> []" for N urls
    using page_loop_sent_prefix [of "[?url]" net f t ftype N 0 urls] by auto
  show ?thesis
    using assms page_loop_sent [OF 1, of net ftype] 2
    by (simp add: get_file_urls_def request_file_urls_def Let_def split: sum.splits)
qed

lemma num_found_solr_page: "num_found (solr_page nf docs) = py_int nf"
  unfolding num_found_def item_solr_page by simp

lemma py_int_0: "py_int ''0'' = Inr 0"
  by (simp add: py_int_def strip_def py_isspace_def is_digit_def digit_val_def)

lemma py_int_250: "py_int ''250'' = Inr 250"
  by (simp add: py_int_def strip_def py_isspace_def is_digit_def digit_val_def)

text \<open>
  C9. With no dates given, the window is from the day a week before today to today, and
  every request that \<^verbatim>\<open>get_file_urls\<close> issues, of which there is at least one, carries
  these two days (for a clock past the first week of year 1, so that the date a week
  before today exists). With only \<open>from_date\<close> given, the window is that single day, and
  every request carries it as both ends.
\<close>

theorem default_time_window:
  "(7 < day today \<longrightarrow>
      time_window today None None = Inr (today\<lparr>day := day today - 7\<rparr>, today)
      \<and> snd (get_file_urls net today None None ftype) \<noteq> []
      \<and> (\<forall>r \<in> set (snd (get_file_urls net today None None ftype)).
            q_from r = day today - 7 \<and> q_to r = day today))
    \<and> time_window today (Some from_date) None = Inr (from_date, from_date)
    \<and> snd (get_file_urls net today (Some from_date) None ftype) \<noteq> []
    \<and> (\<forall>r \<in> set (snd (get_file_urls net today (Some from_date) None ftype)).
          q_from r = day from_date \<and> q_to r = day from_date)"
proof -
  have 1: "time_window today None None = Inr (today\<lparr>day := day today - 7\<rparr>, today)"
    if "7 < day today"
    using that by (simp add: time_window_def week_before_def)
  have 2: "time_window today (Some from_date) None = Inr (from_date, from_date)"
    by (simp add: time_window_def)
  show ?thesis
    using get_file_urls_sent [OF 1, of net ftype] get_file_urls_sent [OF 2, of net ftype] 1 2
    by simp
qed

theorem default_time_window_witness:
  "(7::int) < day \<lparr>day = 738000, micros = 0\<rparr>
   \<and> time_window \<lparr>day = 738000, micros = 0\<rparr> None None
       = Inr (\<lparr>day = 737993, micros = 0\<rparr>, \<lparr>day = 738000, micros = 0\<rparr>)
   \<and> time_window \<lparr>day = 738000, micros = 0\<rparr> (Some \<lparr>day = 737000, micros = 5\<rparr>) None
       = Inr (\<lparr>day = 737000, micros = 5\<rparr>, \<lparr>day = 737000, micros = 5\<rparr>)
   \<and> snd (get_file_urls (solr_endpoint ''0'' []) \<lparr>day = 738000, micros = 0\<rparr> None None '''')
       = [\<lparr>q_from = 737993, q_to = 738000, q_start = 0, q_rows = 100\<rparr>]"
proof -
  have h: "(7::int) < day \<lparr>day = 738000, micros = 0\<rparr>" by simp
  have "snd (get_file_urls (solr_endpoint ''0'' []) \<lparr>day = 738000, micros = 0\<rparr> None None '''')
       = [\<lparr>q_from = 737993, q_to = 738000, q_start = 0, q_rows = 100\<rparr>]"
    by (simp add: get_file_urls_def time_window_def week_before_def request_file_urls_def
        solr_endpoint_def num_found_solr_page py_int_0 parse_solr_page page_loop_unfold
        rows_def Let_def)
  then show ?thesis
    using h default_time_window [of "\<lparr>day = 738000, micros = 0\<rparr>" "solr_endpoint ''0'' []" "''''"
        "\<lparr>day = 737000, micros = 5\<rparr>"]
    by simp
qed

text \<open>
  C10. With \<open>from_date\<close> absent, a supplied \<open>to_date\<close> has no effect: the call does
  exactly what it does with no dates at all; the window is the week ending today, and
  every request, of which there is at least one, carries the day a week before today and
  today (for a clock past the first week of year 1).
\<close>

theorem to_date_ignored_without_from_date:
  "get_file_urls net today None (Some to_date) ftype = get_file_urls net today None None ftype
    \<and> (7 < day today \<longrightarrow>
          time_window today None (Some to_date) = Inr (today\<lparr>day := day today - 7\<rparr>, today)
          \<and> snd (get_file_urls net today None (Some to_date) ftype) \<noteq> []
          \<and> (\<forall>r \<in> set (snd (get_file_urls net today None (Some to_date) ftype)).
                q_from r = day today - 7 \<and> q_to r = day today))"
proof -
  have 1: "time_window today None (Some to_date) = Inr (today\<lparr>day := day today - 7\<rparr>, today)"
    if "7 < day today"
    using that by (simp add: time_window_def week_before_def)
  have 2: "time_window today None (Some to_date) = time_window today None None"
    by (simp add: time_window_def)
  have 3: "get_file_urls net today None (Some to_date) ftype = get_file_urls net today None None ftype"
    unfolding get_file_urls_def 2 ..
  show ?thesis
    using get_file_urls_sent [OF 1, of net ftype] 1 3 by simp
qed

theorem to_date_ignored_without_from_date_witness:
  "(7::int) < day \<lparr>day = 738000, micros = 0\<rparr>
   \<and> time_window \<lparr>day = 738000, micros = 0\<rparr> None (Some \<lparr>day = 730000, micros = 0\<rparr>)
       = Inr (\<lparr>day = 737993, micros = 0\<rparr>, \<lparr>day = 738000, micros = 0\<rparr>)
   \<and> snd (get_file_urls (solr_endpoint ''0'' []) \<lparr>day = 738000, micros = 0\<rparr> None
            (Some \<lparr>day = 730000, micros = 0\<rparr>) '''')
       = [\<lparr>q_from = 737993, q_to = 738000, q_start = 0, q_rows = 100\<rparr>]"
proof -
  have h: "(7::int) < day \<lparr>day = 738000, micros = 0\<rparr>" by simp
  have "snd (get_file_urls (solr_endpoint ''0'' []) \<lparr>day = 738000, micros = 0\<rparr> None None '''')
       = [\<lparr>q_from = 737993, q_to = 738000, q_start = 0, q_rows = 100\<rparr>]"
    by (simp add: get_file_urls_def time_window_def week_before_def request_file_urls_def
        solr_endpoint_def num_found_solr_page py_int_0 parse_solr_page page_loop_unfold
        rows_def Let_def)
  then show ?thesis
    using h to_date_ignored_without_from_date [of "solr_endpoint ''0'' []" "\<lparr>day = 738000, micros = 0\<rparr>"
        "\<lparr>day = 730000, micros = 0\<rparr>" "''''"]
    by simp
qed

subsection \<open>Pagination\<close>

lemma map_upt_Suc_shift: "map h [0..<Suc m] = h 0 # map (\<lambda>k. h (Suc k)) [0..<m]"
proof -
  have "[0..<Suc m] = 0 # map Suc [0..<m]"
    by (simp only: map_Suc_upt upt_conv_Cons zero_less_Suc)
  then show ?thesis by (simp only: list.map map_map o_def)
qed

text \<open>From the offset \<open>s\<close> on, the loop runs \<open>(N - s - 1) div rows\<close> more times.\<close>

lemma page_loop_pages:
  assumes pages: "\<forall>s\<ge>0. \<exists>root. net \<lparr>q_from = day f, q_to = day t, q_start = s, q_rows = rows\<rparr> = Inr root
      \<and> parse_file_urls root ftype = Inr (pg s)"
  shows "0 \<le> s \<Longrightarrow> nat ((N - s - 1) div rows) = m \<Longrightarrow>
    page_loop net f t ftype N s urls sent =
      (Inr (urls @ concat (map (\<lambda>k. pg (s + rows * (1 + int k))) [0..<m])),
       sent @ map (\<lambda>k. \<lparr>q_from = day f, q_to = day t, q_start = s + rows * (1 + int k), q_rows = rows\<rparr>) [0..<m])"
proof (induction m arbitrary: s urls sent)
  case 0
  then have "(N - s - 1) div 100 \<le> 0" by (simp add: rows_def)
  then have "\<not> N > s + rows" unfolding rows_def by linarith
  then show ?case by (simp add: page_loop_unfold [of _ _ _ _ _ s])
next
  case (Suc m)
  then have pos: "(N - s - 1) div 100 = 1 + int m" by (simp add: rows_def)
  then have gt: "N > s + rows" unfolding rows_def by linarith
  from pos have "(N - (s + 100) - 1) div 100 = int m" by linarith
  then have next_m: "nat ((N - (s + rows) - 1) div rows) = m"
    by (simp add: rows_def)
  from Suc.prems(1) have next_s: "0 \<le> s + rows" by (simp add: rows_def)
  let ?U = "\<lambda>s. \<lparr>q_from = day f, q_to = day t, q_start = s, q_rows = rows\<rparr>"
  from pages next_s obtain root where root: "net (?U (s + rows)) = Inr root"
    "parse_file_urls root ftype = Inr (pg (s + rows))"
    by blast
  have e0: "s + rows * (1 + int 0) = s + rows" by simp
  have eS: "s + rows * (1 + int (Suc k)) = s + rows + rows * (1 + int k)" for k
    by (simp add: algebra_simps)
  have rhs1: "concat (map (\<lambda>k. pg (s + rows * (1 + int k))) [0..<Suc m]) =
      pg (s + rows) @ concat (map (\<lambda>k. pg (s + rows + rows * (1 + int k))) [0..<m])"
    by (simp only: map_upt_Suc_shift concat.simps e0 eS)
  have rhs2: "map (\<lambda>k. ?U (s + rows * (1 + int k))) [0..<Suc m] =
      ?U (s + rows) # map (\<lambda>k. ?U (s + rows + rows * (1 + int k))) [0..<m]"
    by (simp only: map_upt_Suc_shift e0 eS)
  show ?case
    unfolding rhs1 rhs2
    using gt root Suc.IH [OF next_s next_m, of "urls @ pg (s + rows)" "sent @ [?U (s + rows)]"]
    by (simp add: page_loop_unfold [of _ _ _ _ _ s] Let_def)
qed

lemma div_100_le: "100 * ((a::int) div 100) \<le> a"
proof -
  have "100 * (a div 100) = a - a mod 100" by (simp add: minus_mod_eq_mult_div)
  moreover have "0 \<le> a mod 100" by simp
  ultimately show ?thesis by simp
qed

lemma div_100_gt: "(a::int) < 100 * (a div 100) + 100"
proof -
  have "100 * (a div 100) = a - a mod 100" by (simp add: minus_mod_eq_mult_div)
  moreover have "a mod 100 < 100" by simp
  ultimately show ?thesis by simp
qed

lemma pages_before: "k < nat ((N - 1) div rows) \<Longrightarrow> rows * int k + rows < N"
proof -
  assume "k < nat ((N - 1) div rows)"
  then have "int k + 1 \<le> (N - 1) div 100" by (simp add: rows_def)
  then have "100 * (int k + 1) \<le> 100 * ((N - 1) div 100)" by simp
  also have "\<dots> \<le> N - 1" by (rule div_100_le)
  finally show ?thesis by (simp add: rows_def)
qed

lemma pages_last: "N \<le> rows * int (nat ((N - 1) div rows)) + rows"
proof (cases "0 \<le> (N - 1) div 100")
  case True
  then have "int (nat ((N - 1) div 100)) = (N - 1) div 100" by simp
  moreover have "N - 1 < 100 * ((N - 1) div 100) + 100" by (rule div_100_gt)
  ultimately show ?thesis by (simp add: rows_def)
next
  case False
  then have "(N - 1) div 100 < 0" by simp
  then have "N - 1 < 0" by (simp add: div_neg_pos_less0 neg_imp_zdiv_neg_iff)
  moreover from False have "nat ((N - 1) div 100) = 0" by simp
  ultimately show ?thesis by (simp add: rows_def)
qed

lemma concat_slices:
  "concat (map (\<lambda>k. take r (drop (r * k) xs)) [0..<n]) = take (r * n) xs"
proof (induction n)
  case 0
  then show ?case by simp
next
  case (Suc n)
  have "concat (map (\<lambda>k. take r (drop (r * k) xs)) [0..<Suc n]) =
      concat (map (\<lambda>k. take r (drop (r * k) xs)) [0..<n]) @ take r (drop (r * n) xs)"
    by simp
  also have "\<dots> = take (r * n) xs @ take r (drop (r * n) xs)"
    by (simp only: Suc.IH)
  also have "\<dots> = take (r * n + r) xs"
    by (rule take_add [symmetric])
  also have "r * n + r = r * Suc n"
    by simp
  finally show ?case .
qed

lemma get_file_urls_pages:
  assumes window: "time_window today from_date to_date = Inr (f, t)"
    and total: "\<exists>root. net \<lparr>q_from = day f, q_to = day t, q_start = 0, q_rows = rows\<rparr> = Inr root
      \<and> num_found root = Inr N"
    and pages: "\<forall>s\<ge>0. \<exists>root. net \<lparr>q_from = day f, q_to = day t, q_start = s, q_rows = rows\<rparr> = Inr root
      \<and> parse_file_urls root ftype = Inr (pg s)"
  shows "get_file_urls net today from_date to_date ftype =
      (Inr (concat (map (\<lambda>k. pg (rows * int k)) [0..<Suc (nat ((N - 1) div rows))])),
       map (\<lambda>k. \<lparr>q_from = day f, q_to = day t, q_start = rows * int k, q_rows = rows\<rparr>)
         [0..<Suc (nat ((N - 1) div rows))])"
proof -
  let ?m = "nat ((N - 1) div rows)"
  let ?url = "\<lambda>s. \<lparr>q_from = day f, q_to = day t, q_start = s, q_rows = rows\<rparr>"
  from total obtain root where root: "net (?url 0) = Inr root" "num_found root = Inr N"
    by blast
  from pages obtain root' where "net (?url 0) = Inr root'" "parse_file_urls root' ftype = Inr (pg 0)"
    by blast
  with root(1) have parse: "parse_file_urls root ftype = Inr (pg 0)"
    by simp
  have loop: "page_loop net f t ftype N 0 (pg 0) [?url 0] =
      (Inr (pg 0 @ concat (map (\<lambda>k. pg (0 + rows * (1 + int k))) [0..<?m])),
       [?url 0] @ map (\<lambda>k. ?url (0 + rows * (1 + int k))) [0..<?m])"
    by (rule page_loop_pages [OF pages]) simp_all
  have "get_file_urls net today from_date to_date ftype = page_loop net f t ftype N 0 (pg 0) [?url 0]"
    by (simp add: get_file_urls_def window request_file_urls_def Let_def root parse)
  also note loop
  finally show ?thesis
    unfolding map_upt_Suc_shift by (simp add: algebra_simps)
qed

text \<open>
  C3. Let the first response report the total \<open>N\<close>, and let the page at every offset \<open>s\<close>
  parse, under the filter, to the list \<open>pg s\<close>. Then \<^verbatim>\<open>get_file_urls\<close> issues its requests
  at the offsets \<open>0\<close>, \<open>rows\<close>, \<open>2 * rows\<close>, ... (\<open>rows = 100\<close>), all for the same window, and
  returns the pages concatenated in this order. Every request but the last has
  \<open>offset + rows < N\<close>, and the last has \<open>offset + rows \<ge> N\<close>. When the pages are
  the successive slices of a list of \<open>N\<close> entries (as they are for an empty filter and an
  endpoint that holds \<open>N\<close> documents), the result is exactly that list.
\<close>

theorem get_file_urls_pagination:
  assumes window: "time_window today from_date to_date = Inr (f, t)"
    and total: "\<exists>root. net \<lparr>q_from = day f, q_to = day t, q_start = 0, q_rows = rows\<rparr> = Inr root
      \<and> num_found root = Inr N"
    and pages: "\<forall>s\<ge>0. \<exists>root. net \<lparr>q_from = day f, q_to = day t, q_start = s, q_rows = rows\<rparr> = Inr root
      \<and> parse_file_urls root ftype = Inr (pg s)"
  shows "get_file_urls net today from_date to_date ftype =
      (Inr (concat (map (\<lambda>k. pg (rows * int k)) [0..<Suc (nat ((N - 1) div rows))])),
       map (\<lambda>k. \<lparr>q_from = day f, q_to = day t, q_start = rows * int k, q_rows = rows\<rparr>)
         [0..<Suc (nat ((N - 1) div rows))])
    \<and> (\<forall>k < nat ((N - 1) div rows). rows * int k + rows < N)
    \<and> N \<le> rows * int (nat ((N - 1) div rows)) + rows
    \<and> (\<forall>docs. int (length docs) = N \<and> (\<forall>s\<ge>0. pg s = take (nat rows) (drop (nat s) docs)) \<longrightarrow>
          fst (get_file_urls net today from_date to_date ftype) = Inr docs)"
proof -
  let ?m = "nat ((N - 1) div rows)"
  note main = get_file_urls_pages [OF assms]
  have before: "\<forall>k < ?m. rows * int k + rows < N"
    by (simp add: pages_before)
  have last: "N \<le> rows * int ?m + rows"
    by (rule pages_last)
  have all: "fst (get_file_urls net today from_date to_date ftype) = Inr docs"
    if len: "int (length docs) = N" and slices: "\<forall>s\<ge>0. pg s = take (nat rows) (drop (nat s) docs)"
    for docs
  proof -
    have "concat (map (\<lambda>k. pg (rows * int k)) [0..<Suc ?m]) =
        concat (map (\<lambda>k. take 100 (drop (100 * k) docs)) [0..<Suc ?m])"
      by (simp add: slices rows_def nat_mult_distrib del: upt_Suc)
    also have "\<dots> = take (100 * Suc ?m) docs"
      by (rule concat_slices)
    also have "\<dots> = docs"
    proof -
      from last len have "int (length docs) \<le> int (100 * Suc ?m)" by (simp add: rows_def)
      then have "length docs \<le> 100 * Suc ?m" by linarith
      then show ?thesis by simp
    qed
    finally show ?thesis by (simp add: main del: upt_Suc)
  qed
  from main before last all show ?thesis by blast
qed

text \<open>
  An endpoint that holds 250 documents and reports the total 250, queried with no filter:
  three requests, at the offsets 0, 100 and 200, and all 250 links in the result.
\<close>

theorem get_file_urls_pagination_witness:
  "fst (get_file_urls (solr_endpoint ''250'' (map (\<lambda>k. (''FULINS_E'', replicate k CHR ''u'')) [0..<250]))
         \<lparr>day = 738000, micros = 0\<rparr> None None '''')
     = Inr (map (\<lambda>k. Some (replicate k CHR ''u'')) [0..<250])
   \<and> snd (get_file_urls (solr_endpoint ''250'' (map (\<lambda>k. (''FULINS_E'', replicate k CHR ''u'')) [0..<250]))
         \<lparr>day = 738000, micros = 0\<rparr> None None '''')
     = [\<lparr>q_from = 737993, q_to = 738000, q_start = 0, q_rows = 100\<rparr>,
        \<lparr>q_from = 737993, q_to = 738000, q_start = 100, q_rows = 100\<rparr>,
        \<lparr>q_from = 737993, q_to = 738000, q_start = 200, q_rows = 100\<rparr>]
   \<and> length (map (\<lambda>k. Some (replicate k CHR ''u'')) [0..<250]) = 250"
proof -
  let ?docs = "map (\<lambda>k. (''FULINS_E'', replicate k CHR ''u'')) [0..<250]"
  let ?urls = "map (\<lambda>k. Some (replicate k CHR ''u'')) [0..<250]"
  let ?today = "\<lparr>day = 738000, micros = 0\<rparr>"
  let ?f = "\<lparr>day = 737993, micros = 0\<rparr>"
  let ?net = "solr_endpoint ''250'' ?docs"
  let ?pg = "\<lambda>s. take (nat rows) (drop (nat s) ?urls)"
  have window: "time_window ?today None None = Inr (?f, ?today)"
    by (simp add: time_window_def week_before_def)
  have total: "\<exists>root. ?net \<lparr>q_from = day ?f, q_to = day ?today, q_start = 0, q_rows = rows\<rparr> = Inr root
      \<and> num_found root = Inr 250"
    by (simp add: solr_endpoint_def num_found_solr_page py_int_250)
  have pages: "\<forall>s\<ge>0. \<exists>root. ?net \<lparr>q_from = day ?f, q_to = day ?today, q_start = s, q_rows = rows\<rparr> = Inr root
      \<and> parse_file_urls root '''' = Inr (?pg s)"
    by (simp add: solr_endpoint_def parse_solr_page take_map drop_map o_def)
  have n: "Suc (nat ((250 - 1) div rows)) = Suc (Suc (Suc 0))"
    by (simp add: rows_def)
  have len: "int (length ?urls) = 250" by simp
  have upt3: "[0..<Suc (Suc (Suc 0))] = [0, Suc 0, Suc (Suc 0)]"
    by (simp add: upt_rec)
  from get_file_urls_pagination [OF window total pages]
  have 1: "get_file_urls ?net ?today None None '''' =
      (Inr (concat (map (\<lambda>k. ?pg (rows * int k)) [0..<Suc (nat ((250 - 1) div rows))])),
       map (\<lambda>k. \<lparr>q_from = day ?f, q_to = day ?today, q_start = rows * int k, q_rows = rows\<rparr>)
         [0..<Suc (nat ((250 - 1) div rows))])"
    and 2: "\<forall>docs. int (length docs) = 250 \<and> (\<forall>s\<ge>0. ?pg s = take (nat rows) (drop (nat s) docs)) \<longrightarrow>
          fst (get_file_urls ?net ?today None None '''') = Inr docs"
    by blast+
  from 2 len have "fst (get_file_urls ?net ?today None None '''') = Inr ?urls"
    by blast
  moreover have "snd (get_file_urls ?net ?today None None '''') =
      [\<lparr>q_from = 737993, q_to = 738000, q_start = 0, q_rows = 100\<rparr>,
        \<lparr>q_from = 737993, q_to = 738000, q_start = 100, q_rows = 100\<rparr>,
        \<lparr>q_from = 737993, q_to = 738000, q_start = 200, q_rows = 100\<rparr>]"
    unfolding 1 n upt3 by (simp add: rows_def)
  ultimately show ?thesis by simp
qed

subsection \<open>Inserting into a table\<close>











lemma rows_of_create_table: "rows_of (create_table table db) table = rows_of db table"
  by (simp add: rows_of_def create_table_def split: option.splits)

lemma create_table_upd: "(create_table table db)(table \<mapsto> rs) = db(table \<mapsto> rs)"
  by (simp add: create_table_def split: option.splits)

lemma create_table_eq: "create_table table db = db(table \<mapsto> rows_of db table)"
  by (auto simp: create_table_def rows_of_def split: option.splits)



lemma collect_args_length:
  "collect_args rs acc = Inr args \<Longrightarrow> length args = length acc + length rs"
  by (induction rs arbitrary: acc) (auto split: sum.splits)

lemma collect_args_missing:
  "\<exists>r \<in> set rs. xpath_Id r = [] \<or> xpath_Issr r = [] \<Longrightarrow> collect_args rs acc = Inl IndexError"
proof (induction rs arbitrary: acc)
  case Nil
  then show ?case by simp
next
  case (Cons r rs)
  show ?case
  proof (cases "xpath_Id r = [] \<or> xpath_Issr r = []")
    case True
    then show ?thesis by (auto simp: item_def split: sum.splits)
  next
    case False
    with Cons.prems have "\<exists>r \<in> set rs. xpath_Id r = [] \<or> xpath_Issr r = []" by simp
    then have "collect_args rs acc' = Inl IndexError" for acc' by (rule Cons.IH)
    then show ?thesis by (auto simp: item_def split: sum.splits)
  qed
qed


lemma collect_sample_two:
  "collect_args (xpath_RefData (firds_doc [ref_data_elem (Some i) (Some l), ref_data_elem (Some i') (Some l')])) []
     = Inr [(Some i, Some l), (Some i', Some l')]"
  by (simp add: xpath_RefData_def firds_doc_def ref_data_elem_def xpath_Id_def xpath_Issr_def
      child_step_def item_def)

lemma xpath_sample_missing:
  "xpath_RefData (firds_doc [ref_data_elem (Some i) (Some l), ref_data_elem (Some i') None])
     = [ref_data_elem (Some i) (Some l), ref_data_elem (Some i') None]"
  "xpath_Issr (ref_data_elem (Some i') None) = []"
  by (simp_all add: xpath_RefData_def firds_doc_def ref_data_elem_def xpath_Issr_def child_step_def)



text \<open>
  C4. When some reference-data record of the document has no \<^verbatim>\<open>Id\<close> element under its
  general attributes, or no \<^verbatim>\<open>Issr\<close> element, \<^verbatim>\<open>append_to_table\<close> raises \<^verbatim>\<open>IndexError\<close>
  and the table holds the rows it held before: no record of the file has been inserted,
  the complete ones no more than the incomplete one. (The table itself has been created
  if it did not exist.) No other table changes.
\<close>

theorem append_to_table_parse_all_or_nothing:
  assumes "files xml_file = Inr root"
    and "\<exists>r \<in> set (xpath_RefData root). xpath_Id r = [] \<or> xpath_Issr r = []"
  shows "fst (append_to_table files fault table xml_file db) = Inl IndexError
    \<and> rows_of (snd (append_to_table files fault table xml_file db)) table = rows_of db table
    \<and> (\<forall>t. t \<noteq> table \<longrightarrow> snd (append_to_table files fault table xml_file db) t = db t)"
  using assms(1) collect_args_missing [OF assms(2), of "[]"]
  by (simp add: append_to_table_def Let_def rows_of_create_table) (simp add: create_table_eq)

text \<open>A file of two records, the second without issuer: nothing is stored, not even the first.\<close>

theorem append_to_table_parse_all_or_nothing_witness:
  "(let doc = firds_doc [ref_data_elem (Some ''DE0001'') (Some ''LEI-A''), ref_data_elem (Some ''DE0002'') None]
    in (\<exists>r \<in> set (xpath_RefData doc). xpath_Id r = [] \<or> xpath_Issr r = [])
       \<and> fst (append_to_table (\<lambda>p. Inr doc) None ''equities'' ''c.xml'' Map.empty) = Inl IndexError
       \<and> rows_of (snd (append_to_table (\<lambda>p. Inr doc) None ''equities'' ''c.xml'' Map.empty)) ''equities'' = [])"
proof -
  let ?doc = "firds_doc [ref_data_elem (Some ''DE0001'') (Some ''LEI-A''), ref_data_elem (Some ''DE0002'') None]"
  have f: "(\<lambda>p. Inr ?doc) ''c.xml'' = Inr ?doc" by simp
  have missing: "\<exists>r \<in> set (xpath_RefData ?doc). xpath_Id r = [] \<or> xpath_Issr r = []"
    by (simp add: xpath_sample_missing)
  from append_to_table_parse_all_or_nothing [of "\<lambda>p. Inr ?doc" "''c.xml''" ?doc None "''equities''" Map.empty, OF f missing]
  have "fst (append_to_table (\<lambda>p. Inr ?doc) None ''equities'' ''c.xml'' Map.empty) = Inl IndexError"
    and "rows_of (snd (append_to_table (\<lambda>p. Inr ?doc) None ''equities'' ''c.xml'' Map.empty)) ''equities'' = []"
    by (simp_all add: rows_of_def)
  with missing show ?thesis unfolding Let_def by blast
qed

text \<open>
  C5. A call of \<^verbatim>\<open>append_to_table\<close> that returns normally has applied every record of the
  file, one \<^verbatim>\<open>INSERT OR IGNORE\<close> each, in the order of the document. A call that raises,
  be it because the file cannot be read, because a record is incomplete, or because the
  storage layer fails at some statement of the batch, leaves the rows of the table as they
  were (the table exists afterwards). In both cases no other table changes.
\<close>

theorem append_to_table_atomic:
  "(fst (append_to_table files fault table xml_file db) = Inr () \<longrightarrow>
      (\<exists>root args. files xml_file = Inr root
         \<and> collect_args (xpath_RefData root) [] = Inr args
         \<and> length args = length (xpath_RefData root)
         \<and> snd (append_to_table files fault table xml_file db)
             = db(table \<mapsto> foldl insert_or_ignore (rows_of db table) args)))
   \<and> (fst (append_to_table files fault table xml_file db) \<noteq> Inr () \<longrightarrow>
        snd (append_to_table files fault table xml_file db) = db(table \<mapsto> rows_of db table))"
proof (cases "files xml_file")
  case (Inl e)
  then show ?thesis by (simp add: append_to_table_def Let_def create_table_eq)
next
  case root: (Inr root)
  show ?thesis
  proof (cases "collect_args (xpath_RefData root) []")
    case (Inl e)
    with root show ?thesis by (simp add: append_to_table_def Let_def create_table_eq)
  next
    case (Inr args)
    then have len: "length args = length (xpath_RefData root)"
      using collect_args_length by fastforce
    show ?thesis
    proof (cases "\<exists>k. fault = Some k \<and> k < length args")
      case True
      with root Inr show ?thesis
        by (auto simp: append_to_table_def Let_def executemany_def create_table_eq)
    next
      case False
      with root Inr len show ?thesis
        by (auto simp: append_to_table_def Let_def executemany_def rows_of_create_table
            create_table_upd split: option.splits)
    qed
  qed
qed

text \<open>
  A file of two records. Without a storage failure both are stored. With a failure at the
  second statement the first record has been inserted in the open transaction, the call
  raises, and the table is empty.
\<close>

theorem append_to_table_atomic_witness:
  "(let doc = firds_doc [ref_data_elem (Some ''DE0001'') (Some ''LEI-A''), ref_data_elem (Some ''DE0002'') (Some ''LEI-B'')]
    in append_to_table (\<lambda>p. Inr doc) None ''equities'' ''d.xml'' Map.empty
         = (Inr (), Map.empty(''equities'' \<mapsto> [(Some ''DE0001'', ''LEI-A''), (Some ''DE0002'', ''LEI-B'')]))
       \<and> executemany (Some 1) [] [(Some ''DE0001'', Some ''LEI-A''), (Some ''DE0002'', Some ''LEI-B'')]
         = (Inl OperationalError, [(Some ''DE0001'', ''LEI-A'')])
       \<and> append_to_table (\<lambda>p. Inr doc) (Some 1) ''equities'' ''d.xml'' Map.empty
         = (Inl OperationalError, Map.empty(''equities'' \<mapsto> [])))"
proof -
  let ?doc = "firds_doc [ref_data_elem (Some ''DE0001'') (Some ''LEI-A''), ref_data_elem (Some ''DE0002'') (Some ''LEI-B'')]"
  let ?args = "[(Some ''DE0001'', Some ''LEI-A''), (Some ''DE0002'', Some ''LEI-B'')]"
  have c: "collect_args (xpath_RefData ?doc) [] = Inr ?args"
    by (rule collect_sample_two)
  have ok: "fst (append_to_table (\<lambda>p. Inr ?doc) None ''equities'' ''d.xml'' Map.empty) = Inr ()"
    by (simp add: append_to_table_def Let_def c executemany_def)
  have bad: "fst (append_to_table (\<lambda>p. Inr ?doc) (Some 1) ''equities'' ''d.xml'' Map.empty) = Inl OperationalError"
    by (simp add: append_to_table_def Let_def c executemany_def)
  from append_to_table_atomic [of "\<lambda>p. Inr ?doc" None "''equities''" "''d.xml''" Map.empty] ok c
  have 1: "snd (append_to_table (\<lambda>p. Inr ?doc) None ''equities'' ''d.xml'' Map.empty)
      = Map.empty(''equities'' \<mapsto> [(Some ''DE0001'', ''LEI-A''), (Some ''DE0002'', ''LEI-B'')])"
    by (simp add: rows_of_def insert_or_ignore_def)
  from append_to_table_atomic [of "\<lambda>p. Inr ?doc" "Some 1" "''equities''" "''d.xml''" Map.empty] bad
  have 2: "snd (append_to_table (\<lambda>p. Inr ?doc) (Some 1) ''equities'' ''d.xml'' Map.empty)
      = Map.empty(''equities'' \<mapsto> [])"
    by (simp add: rows_of_def)
  have 3: "executemany (Some 1) [] ?args = (Inl OperationalError, [(Some ''DE0001'', ''LEI-A'')])"
    by (simp add: executemany_def insert_or_ignore_def)
  show ?thesis
    unfolding Let_def using ok bad 1 2 3 by (simp add: prod_eq_iff)
qed

end
